theory Spec2Isabelle
  imports Main
begin

section \<open>Data model (types/scoring.types.ts)\<close>

text \<open>
  The TypeScript literal types \<^verbatim>\<open>1 | 2\<close> (\<^verbatim>\<open>Team\<close>, \<^verbatim>\<open>serverNumber\<close>) and the
  string literal type \<^verbatim>\<open>TennisPoint\<close> are datatypes. Every \<^verbatim>\<open>number\<close> is an \<open>int\<close>,
  an optional field and a nullable field are an \<open>option\<close>.
\<close>

datatype SportType = Tennis | Pickleball | Badminton | Padel

datatype Team = Team1 | Team2

datatype ServerNumber = Server1 | Server2

datatype TennisPoint = P0 | P15 | P30 | P40 | AD

record ScoringConfig =
  sport :: SportType
  setsToWin :: int
  gamesPerSet :: int
  tiebreakAt :: int
  finalSetTiebreak :: bool
  finalSetTiebreakPoints :: int
  advantageScoring :: bool
  pointsPerGame :: "int option"
  winByTwo :: bool
  rallyScoring :: bool

record TennisGameState =
  team1Points :: TennisPoint
  team2Points :: TennisPoint

record PickleballGameState =
  pbTeam1Points :: int
  pbTeam2Points :: int
  serverNumber :: ServerNumber

record TiebreakScore =
  team1 :: int
  team2 :: int

record SetState =
  setNumber :: int
  team1Games :: int
  team2Games :: int
  isTiebreak :: bool
  tiebreakScore :: "TiebreakScore option"
  winner :: "Team option"

text \<open>
  \<^verbatim>\<open>MatchState.currentGame\<close> has the union type \<^verbatim>\<open>GameState\<close>; each engine casts it to
  its own variant (\<^verbatim>\<open>state.currentGame as TennisGameState\<close>), so the match state is
  parameterised by the game variant the engine works on.
\<close>

record 'g MatchState =
  fixtureId :: string
  config :: ScoringConfig
  sets :: "SetState list"
  currentSetIndex :: int
  currentGame :: 'g
  servingTeam :: Team
  matchWinner :: "Team option"
  isComplete :: bool

datatype ScoreEventType =
  PointScored | GameWon | SetWon | MatchWon | Undo | Correction | MatchStarted

record 'g ScoreEvent =
  eventId :: string
  eventFixtureId :: string
  eventType :: ScoreEventType
  scoringTeam :: Team
  scoreSnapshot :: "'g MatchState"
  recordedBy :: "string option"
  recordedAt :: int
  eventNotes :: "string option"

text \<open>
  What the engines can throw: the explicit \<^verbatim>\<open>Error('Tiebreak score not initialized')\<close>,
  the \<^verbatim>\<open>TypeError\<close> of reading a property of \<^verbatim>\<open>undefined\<close> when
  \<^verbatim>\<open>state.sets[state.currentSetIndex]\<close> is out of range, and the
  \<^verbatim>\<open>Error('No events to undo')\<close> of the undo mutation.
\<close>

datatype error = TiebreakScoreNotInitialized | TypeErrorUndefined | NoEventsToUndo

text \<open>The preset configurations.\<close>

definition TENNIS_STANDARD :: ScoringConfig where
  "TENNIS_STANDARD = \<lparr> sport = Tennis, setsToWin = 2, gamesPerSet = 6, tiebreakAt = 6,
     finalSetTiebreak = True, finalSetTiebreakPoints = 10, advantageScoring = True,
     pointsPerGame = None, winByTwo = True, rallyScoring = False \<rparr>"

definition TENNIS_FAST4 :: ScoringConfig where
  "TENNIS_FAST4 = \<lparr> sport = Tennis, setsToWin = 2, gamesPerSet = 4, tiebreakAt = 3,
     finalSetTiebreak = True, finalSetTiebreakPoints = 7, advantageScoring = False,
     pointsPerGame = None, winByTwo = False, rallyScoring = False \<rparr>"

definition PICKLEBALL_STANDARD :: ScoringConfig where
  "PICKLEBALL_STANDARD = \<lparr> sport = Pickleball, setsToWin = 2, gamesPerSet = 1, tiebreakAt = 0,
     finalSetTiebreak = False, finalSetTiebreakPoints = 0, advantageScoring = False,
     pointsPerGame = Some 11, winByTwo = True, rallyScoring = True \<rparr>"

definition PICKLEBALL_SIDEOUT :: ScoringConfig where
  "PICKLEBALL_SIDEOUT = \<lparr> sport = Pickleball, setsToWin = 2, gamesPerSet = 1, tiebreakAt = 0,
     finalSetTiebreak = False, finalSetTiebreakPoints = 0, advantageScoring = False,
     pointsPerGame = Some 11, winByTwo = True, rallyScoring = False \<rparr>"

section \<open>Shared JavaScript idioms\<close>

text \<open>\<^verbatim>\<open>team === 1 ? 2 : 1\<close>\<close>

fun otherTeam :: "Team \<Rightarrow> Team" where
  "otherTeam Team1 = Team2"
| "otherTeam Team2 = Team1"

text \<open>\<^verbatim>\<open>xs[i]\<close>: \<^verbatim>\<open>undefined\<close> outside the array.\<close>

definition arrayGet :: "'a list \<Rightarrow> int \<Rightarrow> 'a option" where
  "arrayGet xs i = (if 0 \<le> i \<and> i < int (length xs) then Some (xs ! nat i) else None)"

text \<open>\<^verbatim>\<open>xs.map((s, i) => (i === idx ? x : s))\<close>\<close>

definition mapReplace :: "int \<Rightarrow> 'a \<Rightarrow> 'a list \<Rightarrow> 'a list" where
  "mapReplace idx x xs = map (\<lambda>(i, s). if int i = idx then x else s) (enumerate 0 xs)"

text \<open>\<^verbatim>\<open>state.sets.filter(s => s.winner === t).length + (won === t ? 1 : 0)\<close>\<close>

definition setsWonBy :: "Team \<Rightarrow> SetState list \<Rightarrow> Team \<Rightarrow> int" where
  "setsWonBy t ss won =
     int (length (filter (\<lambda>s. winner s = Some t) ss)) + (if won = t then 1 else 0)"

definition createInitialSet :: "int \<Rightarrow> SetState" where
  "createInitialSet n = \<lparr> setNumber = n, team1Games = 0, team2Games = 0,
     isTiebreak = False, tiebreakScore = None, winner = None \<rparr>"

section \<open>Advantage-scoring engine (features/scoring/engine/tennis.ts)\<close>

definition tennis_createInitialGame :: TennisGameState where
  "tennis_createInitialGame = \<lparr> team1Points = P0, team2Points = P0 \<rparr>"

text \<open>
  \<^verbatim>\<open>TENNIS_POINTS = ['0', '15', '30', '40']\<close>: the last entry and \<^verbatim>\<open>'AD'\<close> (index -1)
  are returned as they are.
\<close>

fun getNextPoint :: "TennisPoint \<Rightarrow> TennisPoint" where
  "getNextPoint P0 = P15"
| "getNextPoint P15 = P30"
| "getNextPoint P30 = P40"
| "getNextPoint P40 = P40"
| "getNextPoint AD = AD"

text \<open>\<^verbatim>\<open>game[key]\<close> and \<^verbatim>\<open>{ ...game, [key]: p }\<close> for the key of a team.\<close>

fun pointsOf :: "Team \<Rightarrow> TennisGameState \<Rightarrow> TennisPoint" where
  "pointsOf Team1 g = team1Points g"
| "pointsOf Team2 g = team2Points g"

fun withPoints :: "Team \<Rightarrow> TennisPoint \<Rightarrow> TennisGameState \<Rightarrow> TennisGameState" where
  "withPoints Team1 p g = g\<lparr> team1Points := p \<rparr>"
| "withPoints Team2 p g = g\<lparr> team2Points := p \<rparr>"

definition scoreRegularPoint ::
  "TennisGameState \<Rightarrow> Team \<Rightarrow> bool \<Rightarrow> TennisGameState \<times> Team option" where
  "scoreRegularPoint game t adv =
     (let scoringPoints = pointsOf t game;
          otherPoints = pointsOf (otherTeam t) game
      in if scoringPoints = P40 \<and> otherPoints = P40 then
           (if adv then (withPoints t AD game, None)
            else (tennis_createInitialGame, Some t))
         else if scoringPoints = AD then (tennis_createInitialGame, Some t)
         else if otherPoints = AD then (\<lparr> team1Points = P40, team2Points = P40 \<rparr>, None)
         else if scoringPoints = P40 then (tennis_createInitialGame, Some t)
         else (withPoints t (getNextPoint scoringPoints) game, None))"

fun tbOf :: "Team \<Rightarrow> TiebreakScore \<Rightarrow> int" where
  "tbOf Team1 tb = team1 tb"
| "tbOf Team2 tb = team2 tb"

fun withTb :: "Team \<Rightarrow> int \<Rightarrow> TiebreakScore \<Rightarrow> TiebreakScore" where
  "withTb Team1 n tb = tb\<lparr> team1 := n \<rparr>"
| "withTb Team2 n tb = tb\<lparr> team2 := n \<rparr>"

definition tiebreakTarget :: "SetState \<Rightarrow> ScoringConfig \<Rightarrow> int" where
  "tiebreakTarget st cfg =
     (let isFinalSet = (setNumber st = setsToWin cfg * 2 - 1)
      in if isFinalSet \<and> finalSetTiebreak cfg then finalSetTiebreakPoints cfg else 7)"

definition scoreTiebreakPoint ::
  "SetState \<Rightarrow> Team \<Rightarrow> ScoringConfig \<Rightarrow> error + (SetState \<times> Team option)" where
  "scoreTiebreakPoint st t cfg =
     (case tiebreakScore st of
        None \<Rightarrow> Inl TiebreakScoreNotInitialized
      | Some tb \<Rightarrow>
          (let newScore = withTb t (tbOf t tb + 1) tb;
               scoringPoints = tbOf t newScore;
               otherPoints = tbOf (otherTeam t) newScore
           in if scoringPoints \<ge> tiebreakTarget st cfg \<and> scoringPoints - otherPoints \<ge> 2 then
                Inr (st\<lparr> tiebreakScore := Some newScore,
                          team1Games := team1Games st + (if t = Team1 then 1 else 0),
                          team2Games := team2Games st + (if t = Team2 then 1 else 0),
                          winner := Some t \<rparr>, Some t)
              else Inr (st\<lparr> tiebreakScore := Some newScore \<rparr>, None)))"

definition checkSetWon :: "SetState \<Rightarrow> ScoringConfig \<Rightarrow> Team option" where
  "checkSetWon st cfg =
     (if isTiebreak st then None
      else if team1Games st \<ge> gamesPerSet cfg \<and> team1Games st - team2Games st \<ge> 2 then Some Team1
      else if team2Games st \<ge> gamesPerSet cfg \<and> team2Games st - team1Games st \<ge> 2 then Some Team2
      else if team1Games st = gamesPerSet cfg + 1 \<and> team2Games st = gamesPerSet cfg - 1 then Some Team1
      else if team2Games st = gamesPerSet cfg + 1 \<and> team1Games st = gamesPerSet cfg - 1 then Some Team2
      else None)"

definition shouldStartTiebreak :: "SetState \<Rightarrow> ScoringConfig \<Rightarrow> bool" where
  "shouldStartTiebreak st cfg \<longleftrightarrow>
     team1Games st = tiebreakAt cfg \<and> team2Games st = tiebreakAt cfg \<and> \<not> isTiebreak st"

definition updateServerAfterGame :: "Team \<Rightarrow> Team" where
  "updateServerAfterGame currentServer = (if currentServer = Team1 then Team2 else Team1)"

definition updateServerInTiebreak :: "Team \<Rightarrow> int \<Rightarrow> Team" where
  "updateServerInTiebreak currentServer totalPoints =
     (if totalPoints = 0 then currentServer
      else if totalPoints = 1 then (if currentServer = Team1 then Team2 else Team1)
      else if (totalPoints - 1) mod 2 = 0 then (if currentServer = Team1 then Team2 else Team1)
      else currentServer)"

text \<open>The tiebreak half of \<^verbatim>\<open>scorePoint\<close> (\<^verbatim>\<open>if (currentSet.isTiebreak) { ... }\<close>).\<close>

definition scoreInTiebreak ::
  "TennisGameState MatchState \<Rightarrow> SetState \<Rightarrow> Team \<Rightarrow> error + TennisGameState MatchState" where
  "scoreInTiebreak state currentSet t =
     (case scoreTiebreakPoint currentSet t (config state) of
        Inl e \<Rightarrow> Inl e
      | Inr (newSet, setWon) \<Rightarrow>
          (let totalTiebreakPoints =
                 (case tiebreakScore newSet of Some tb \<Rightarrow> team1 tb + team2 tb | None \<Rightarrow> 0)
           in case setWon of
                Some w \<Rightarrow>
                  (let team1Sets = setsWonBy Team1 (sets state) w;
                       team2Sets = setsWonBy Team2 (sets state) w
                   in if team1Sets = setsToWin (config state) \<or> team2Sets = setsToWin (config state) then
                        Inr (state\<lparr> sets := mapReplace (currentSetIndex state) newSet (sets state),
                                    matchWinner := Some w,
                                    isComplete := True \<rparr>)
                      else
                        Inr (state\<lparr> sets := mapReplace (currentSetIndex state) newSet (sets state)
                                             @ [createInitialSet (currentSetIndex state + 2)],
                                    currentSetIndex := currentSetIndex state + 1,
                                    currentGame := tennis_createInitialGame,
                                    servingTeam := updateServerAfterGame (servingTeam state) \<rparr>))
              | None \<Rightarrow>
                  Inr (state\<lparr> sets := mapReplace (currentSetIndex state) newSet (sets state),
                              servingTeam := updateServerInTiebreak (servingTeam state)
                                               totalTiebreakPoints \<rparr>)))"

text \<open>The regular-game half of \<^verbatim>\<open>scorePoint\<close>.\<close>

definition scoreInGame ::
  "TennisGameState MatchState \<Rightarrow> SetState \<Rightarrow> Team \<Rightarrow> TennisGameState MatchState" where
  "scoreInGame state currentSet t =
     (case scoreRegularPoint (currentGame state) t (advantageScoring (config state)) of
        (newGame, None) \<Rightarrow> state\<lparr> currentGame := newGame \<rparr>
      | (newGame, Some gameWon) \<Rightarrow>
          (let updatedSet = currentSet\<lparr>
                 team1Games := team1Games currentSet + (if gameWon = Team1 then 1 else 0),
                 team2Games := team2Games currentSet + (if gameWon = Team2 then 1 else 0) \<rparr>
           in if shouldStartTiebreak updatedSet (config state) then
                state\<lparr> sets := mapReplace (currentSetIndex state)
                                  (updatedSet\<lparr> isTiebreak := True,
                                      tiebreakScore := Some \<lparr> team1 = 0, team2 = 0 \<rparr> \<rparr>)
                                  (sets state),
                       currentGame := tennis_createInitialGame,
                       servingTeam := updateServerAfterGame (servingTeam state) \<rparr>
              else
                (case checkSetWon updatedSet (config state) of
                   Some setWinner \<Rightarrow>
                     (let finalSet = updatedSet\<lparr> winner := Some setWinner \<rparr>;
                          team1Sets = setsWonBy Team1 (sets state) setWinner;
                          team2Sets = setsWonBy Team2 (sets state) setWinner
                      in if team1Sets = setsToWin (config state) \<or> team2Sets = setsToWin (config state) then
                           state\<lparr> sets := mapReplace (currentSetIndex state) finalSet (sets state),
                                  currentGame := newGame,
                                  matchWinner := Some setWinner,
                                  isComplete := True \<rparr>
                         else
                           state\<lparr> sets := mapReplace (currentSetIndex state) finalSet (sets state)
                                           @ [createInitialSet (currentSetIndex state + 2)],
                                  currentSetIndex := currentSetIndex state + 1,
                                  currentGame := tennis_createInitialGame,
                                  servingTeam := updateServerAfterGame (servingTeam state) \<rparr>)
                 | None \<Rightarrow>
                     state\<lparr> sets := mapReplace (currentSetIndex state) updatedSet (sets state),
                            currentGame := newGame,
                            servingTeam := updateServerAfterGame (servingTeam state) \<rparr>)))"

definition tennis_scorePoint ::
  "TennisGameState MatchState \<Rightarrow> Team \<Rightarrow> error + TennisGameState MatchState" where
  "tennis_scorePoint state t =
     (if isComplete state then Inr state
      else case arrayGet (sets state) (currentSetIndex state) of
             None \<Rightarrow> Inl TypeErrorUndefined
           | Some currentSet \<Rightarrow>
               if isTiebreak currentSet then scoreInTiebreak state currentSet t
               else Inr (scoreInGame state currentSet t))"

definition tennis_createInitialState ::
  "string \<Rightarrow> ScoringConfig \<Rightarrow> Team \<Rightarrow> TennisGameState MatchState" where
  "tennis_createInitialState fid cfg srv =
     \<lparr> fixtureId = fid, config = cfg, sets = [createInitialSet 1], currentSetIndex = 0,
       currentGame = tennis_createInitialGame, servingTeam = srv,
       matchWinner = None, isComplete = False \<rparr>"

text \<open>
  \<^verbatim>\<open>undoLastPoint\<close> is the same function in both engines: it reads
  \<^verbatim>\<open>events[events.length - 1].scoreSnapshot\<close>.
\<close>

definition undoLastPoint :: "'g MatchState \<Rightarrow> 'g ScoreEvent list \<Rightarrow> 'g MatchState" where
  "undoLastPoint state events =
     (if length events = 0 then state
      else scoreSnapshot (events ! (length events - 1)))"

text \<open>Scoring a list of points in order; the first exception ends the run.\<close>

fun tennis_run ::
  "TennisGameState MatchState \<Rightarrow> Team list \<Rightarrow> error + TennisGameState MatchState" where
  "tennis_run s [] = Inr s"
| "tennis_run s (t # ts) =
     (case tennis_scorePoint s t of Inl e \<Rightarrow> Inl e | Inr s' \<Rightarrow> tennis_run s' ts)"

section \<open>Rally/side-out engine (features/scoring/engine/pickleball.ts)\<close>

definition pickleball_createInitialGame :: PickleballGameState where
  "pickleball_createInitialGame =
     \<lparr> pbTeam1Points = 0, pbTeam2Points = 0, serverNumber = Server1 \<rparr>"

text \<open>\<^verbatim>\<open>config.pointsPerGame || 11\<close>: \<^verbatim>\<open>undefined\<close> and \<^verbatim>\<open>0\<close> are falsy.\<close>

definition pointsToWin :: "ScoringConfig \<Rightarrow> int" where
  "pointsToWin cfg =
     (case pointsPerGame cfg of None \<Rightarrow> 11 | Some p \<Rightarrow> if p = 0 then 11 else p)"

fun pbPointsOf :: "Team \<Rightarrow> PickleballGameState \<Rightarrow> int" where
  "pbPointsOf Team1 g = pbTeam1Points g"
| "pbPointsOf Team2 g = pbTeam2Points g"

fun withPbPoints :: "Team \<Rightarrow> int \<Rightarrow> PickleballGameState \<Rightarrow> PickleballGameState" where
  "withPbPoints Team1 n g = g\<lparr> pbTeam1Points := n \<rparr>"
| "withPbPoints Team2 n g = g\<lparr> pbTeam2Points := n \<rparr>"

definition pickleball_scorePoint ::
  "PickleballGameState MatchState \<Rightarrow> Team \<Rightarrow> error + PickleballGameState MatchState" where
  "pickleball_scorePoint state t =
     (if isComplete state then Inr state
      else
        let game = currentGame state;
            cfg = config state;
            toWin = pointsToWin cfg
        in if \<not> rallyScoring cfg \<and> t \<noteq> servingTeam state then
             (if serverNumber game = Server1 then
                Inr (state\<lparr> currentGame := game\<lparr> serverNumber := Server2 \<rparr>,
                            servingTeam := servingTeam state \<rparr>)
              else
                Inr (state\<lparr> currentGame := game\<lparr> serverNumber := Server1 \<rparr>,
                            servingTeam := (if servingTeam state = Team1 then Team2 else Team1) \<rparr>))
           else
             let newPoints = pbPointsOf t game + 1;
                 otherPoints = pbPointsOf (otherTeam t) game;
                 hasEnoughPoints = (newPoints \<ge> toWin);
                 hasRequiredLead =
                   (if winByTwo cfg then newPoints - otherPoints \<ge> 2 else newPoints > otherPoints)
             in if hasEnoughPoints \<and> hasRequiredLead then
                  (case arrayGet (sets state) (currentSetIndex state) of
                     None \<Rightarrow> Inl TypeErrorUndefined
                   | Some currentSet \<Rightarrow>
                       let updatedSet = currentSet\<lparr>
                             team1Games := team1Games currentSet + (if t = Team1 then 1 else 0),
                             team2Games := team2Games currentSet + (if t = Team2 then 1 else 0),
                             winner := Some t \<rparr>;
                           team1Won = setsWonBy Team1 (sets state) t;
                           team2Won = setsWonBy Team2 (sets state) t
                       in if team1Won = setsToWin (config state) \<or> team2Won = setsToWin (config state) then
                            Inr (state\<lparr> sets := mapReplace (currentSetIndex state) updatedSet (sets state),
                                        currentGame := withPbPoints t newPoints game,
                                        matchWinner := Some t,
                                        isComplete := True \<rparr>)
                          else
                            Inr (state\<lparr> sets := mapReplace (currentSetIndex state) updatedSet (sets state)
                                                 @ [createInitialSet (currentSetIndex state + 2)],
                                        currentSetIndex := currentSetIndex state + 1,
                                        currentGame := pickleball_createInitialGame,
                                        servingTeam := (if t = Team1 then Team2 else Team1) \<rparr>))
                else
                  Inr (state\<lparr> currentGame := withPbPoints t newPoints game,
                              servingTeam := (if rallyScoring cfg then t else servingTeam state) \<rparr>))"

definition pickleball_createInitialState ::
  "string \<Rightarrow> ScoringConfig \<Rightarrow> Team \<Rightarrow> PickleballGameState MatchState" where
  "pickleball_createInitialState fid cfg srv =
     \<lparr> fixtureId = fid, config = cfg, sets = [createInitialSet 1], currentSetIndex = 0,
       currentGame = pickleball_createInitialGame, servingTeam = srv,
       matchWinner = None, isComplete = False \<rparr>"

fun pickleball_run ::
  "PickleballGameState MatchState \<Rightarrow> Team list \<Rightarrow> error + PickleballGameState MatchState" where
  "pickleball_run s [] = Inr s"
| "pickleball_run s (t # ts) =
     (case pickleball_scorePoint s t of Inl e \<Rightarrow> Inl e | Inr s' \<Rightarrow> pickleball_run s' ts)"

section \<open>Event log (features/scoring/hooks/useScoring.ts)\<close>

text \<open>
  The value the undo mutation computes from the event list it is given (the deletion of
  the last event and the update of the projection are database effects, left out):
  it throws on an empty list and reads \<^verbatim>\<open>events[events.length - 2].scoreSnapshot\<close>,
  or \<^verbatim>\<open>null\<close> when there is one event.
\<close>

definition useUndoPoint :: "'g ScoreEvent list \<Rightarrow> error + 'g MatchState option" where
  "useUndoPoint events =
     (if length events = 0 then Inl NoEventsToUndo
      else Inr (if length events > 1 then Some (scoreSnapshot (events ! (length events - 2)))
                else None))"

text \<open>\<^verbatim>\<open>buildMatchState\<close>: the latest snapshot, or the initial state of the engine.\<close>

definition buildMatchState :: "'g MatchState \<Rightarrow> 'g ScoreEvent list \<Rightarrow> 'g MatchState" where
  "buildMatchState initial events =
     (if length events > 0 then scoreSnapshot (events ! (length events - 1)) else initial)"

text \<open>The event a scored point appends: its snapshot is the state after the point.\<close>

definition pointScoredEvent ::
  "string \<Rightarrow> int \<Rightarrow> string \<Rightarrow> Team \<Rightarrow> 'g MatchState \<Rightarrow> 'g ScoreEvent" where
  "pointScoredEvent eid time fid t newState =
     \<lparr> eventId = eid, eventFixtureId = fid, eventType = PointScored, scoringTeam = t,
       scoreSnapshot = newState, recordedBy = None, recordedAt = time, eventNotes = None \<rparr>"

section \<open>Invariant and example states\<close>

text \<open>
  The set index points into the set list, and every set in tiebreak mode carries a tally.
\<close>

definition wellFormed :: "TennisGameState MatchState \<Rightarrow> bool" where
  "wellFormed s \<longleftrightarrow>
     0 \<le> currentSetIndex s \<and> currentSetIndex s < int (length (sets s)) \<and>
     list_all (\<lambda>st. isTiebreak st \<longrightarrow> tiebreakScore st \<noteq> None) (sets s)"

text \<open>
  The tiebreak serving rule in the words of the specification: the side serving first
  serves point 1 only, then the serve changes hands every two points, so that points
  2 and 3 go to the other side, points 4 and 5 to the first side again, and so on.
  Before point \<open>n\<close> the serve has changed hands \<open>n div 2\<close> times.
\<close>

definition spec_tiebreakServer :: "Team \<Rightarrow> nat \<Rightarrow> Team" where
  "spec_tiebreakServer first n = (if even (n div 2) then first else otherTeam first)"

text \<open>A standard tennis match at 6-0, 5-0, 40-0, and the same match one point later.\<close>

definition ex_match_point :: "TennisGameState MatchState" where
  "ex_match_point =
     \<lparr> fixtureId = ''m'', config = TENNIS_STANDARD,
       sets = [\<lparr> setNumber = 1, team1Games = 6, team2Games = 0, isTiebreak = False,
                 tiebreakScore = None, winner = Some Team1 \<rparr>,
               \<lparr> setNumber = 2, team1Games = 5, team2Games = 0, isTiebreak = False,
                 tiebreakScore = None, winner = None \<rparr>],
       currentSetIndex = 1,
       currentGame = \<lparr> team1Points = P40, team2Points = P0 \<rparr>,
       servingTeam = Team2, matchWinner = None, isComplete = False \<rparr>"

definition ex_match_won :: "TennisGameState MatchState" where
  "ex_match_won =
     \<lparr> fixtureId = ''m'', config = TENNIS_STANDARD,
       sets = [\<lparr> setNumber = 1, team1Games = 6, team2Games = 0, isTiebreak = False,
                 tiebreakScore = None, winner = Some Team1 \<rparr>,
               \<lparr> setNumber = 2, team1Games = 6, team2Games = 0, isTiebreak = False,
                 tiebreakScore = None, winner = Some Team1 \<rparr>],
       currentSetIndex = 1,
       currentGame = \<lparr> team1Points = P0, team2Points = P0 \<rparr>,
       servingTeam = Team2, matchWinner = Some Team1, isComplete = True \<rparr>"

text \<open>The first two points of a standard tennis match, both won by team 1.\<close>

definition ex_fifteen_love :: "TennisGameState MatchState" where
  "ex_fifteen_love =
     \<lparr> fixtureId = ''m'', config = TENNIS_STANDARD, sets = [createInitialSet 1],
       currentSetIndex = 0,
       currentGame = \<lparr> team1Points = P15, team2Points = P0 \<rparr>,
       servingTeam = Team1, matchWinner = None, isComplete = False \<rparr>"

definition ex_thirty_love :: "TennisGameState MatchState" where
  "ex_thirty_love =
     \<lparr> fixtureId = ''m'', config = TENNIS_STANDARD, sets = [createInitialSet 1],
       currentSetIndex = 0,
       currentGame = \<lparr> team1Points = P30, team2Points = P0 \<rparr>,
       servingTeam = Team1, matchWinner = None, isComplete = False \<rparr>"

text \<open>The first rally of a rally-scoring pickleball match, won by team 1.\<close>

definition ex_one_nil :: "PickleballGameState MatchState" where
  "ex_one_nil =
     \<lparr> fixtureId = ''m'', config = PICKLEBALL_STANDARD, sets = [createInitialSet 1],
       currentSetIndex = 0,
       currentGame = \<lparr> pbTeam1Points = 1, pbTeam2Points = 0, serverNumber = Server1 \<rparr>,
       servingTeam = Team1, matchWinner = None, isComplete = False \<rparr>"

text \<open>A standard tennis match that has just reached 6-6 in the first set.\<close>

definition ex_tiebreak_set :: "TiebreakScore \<Rightarrow> SetState" where
  "ex_tiebreak_set tb =
     \<lparr> setNumber = 1, team1Games = 6, team2Games = 6, isTiebreak = True,
       tiebreakScore = Some tb, winner = None \<rparr>"

definition ex_tiebreak :: "TiebreakScore \<Rightarrow> Team \<Rightarrow> TennisGameState MatchState" where
  "ex_tiebreak tb srv =
     \<lparr> fixtureId = ''m'', config = TENNIS_STANDARD, sets = [ex_tiebreak_set tb],
       currentSetIndex = 0,
       currentGame = \<lparr> team1Points = P0, team2Points = P0 \<rparr>,
       servingTeam = srv, matchWinner = None, isComplete = False \<rparr>"

definition six_all :: "Team list" where
  "six_all = concat (replicate 6 (replicate 4 Team1 @ replicate 4 Team2))"

text \<open>
  A side-out pickleball match after 24 rallies won by team 1, which served first: two
  games to none.
\<close>

definition ex_sideout_won :: "PickleballGameState MatchState" where
  "ex_sideout_won =
     \<lparr> fixtureId = ''m'', config = PICKLEBALL_SIDEOUT,
       sets = [\<lparr> setNumber = 1, team1Games = 1, team2Games = 0, isTiebreak = False,
                 tiebreakScore = None, winner = Some Team1 \<rparr>,
               \<lparr> setNumber = 2, team1Games = 1, team2Games = 0, isTiebreak = False,
                 tiebreakScore = None, winner = Some Team1 \<rparr>],
       currentSetIndex = 1,
       currentGame = \<lparr> pbTeam1Points = 11, pbTeam2Points = 0, serverNumber = Server1 \<rparr>,
       servingTeam = Team1, matchWinner = Some Team1, isComplete = True \<rparr>"

text \<open>A rally-scoring pickleball game at 10-3 under a policy without \<^verbatim>\<open>pointsPerGame\<close>.\<close>

definition ex_game_point :: "PickleballGameState MatchState" where
  "ex_game_point =
     \<lparr> fixtureId = ''m'', config = PICKLEBALL_STANDARD\<lparr> pointsPerGame := None \<rparr>,
       sets = [createInitialSet 1], currentSetIndex = 0,
       currentGame = \<lparr> pbTeam1Points = 10, pbTeam2Points = 3, serverNumber = Server1 \<rparr>,
       servingTeam = Team1, matchWinner = None, isComplete = False \<rparr>"

section \<open>Helper lemmas\<close>

lemma arrayGet_Some:
  "arrayGet xs i = Some x \<Longrightarrow> 0 \<le> i \<and> nat i < length xs \<and> x = xs ! nat i"
  by (auto simp: arrayGet_def split: if_splits)

lemma length_mapReplace [simp]: "length (mapReplace idx x xs) = length xs"
  by (simp add: mapReplace_def)

text \<open>Inside the array, the indexed \<^verbatim>\<open>map\<close> is a list update.\<close>

lemma mapReplace_update:
  assumes "0 \<le> idx"
  shows "mapReplace idx x xs = xs[nat idx := x]"
proof (rule nth_equalityI)
  show "length (mapReplace idx x xs) = length (xs[nat idx := x])" by simp
next
  fix i assume "i < length (mapReplace idx x xs)"
  then have i: "i < length xs" by simp
  have "int i = idx \<longleftrightarrow> i = nat idx" using assms by auto
  with i show "mapReplace idx x xs ! i = xs[nat idx := x] ! i"
    by (simp add: mapReplace_def nth_enumerate_eq nth_list_update)
qed

lemma set_mapReplace: "y \<in> set (mapReplace idx x xs) \<Longrightarrow> y = x \<or> y \<in> set xs"
  by (auto simp: mapReplace_def in_set_enumerate_eq split: if_splits)

lemma list_all_mapReplace: "list_all P xs \<Longrightarrow> P x \<Longrightarrow> list_all P (mapReplace idx x xs)"
  by (auto simp: list_all_iff dest: set_mapReplace)

subsection \<open>Example runs\<close>

lemma run_to_match_point:
  "tennis_run (tennis_createInitialState ''m'' TENNIS_STANDARD Team1) (replicate 47 Team1)
     = Inr ex_match_point"
  by code_simp

lemma run_to_match_won:
  "tennis_run (tennis_createInitialState ''m'' TENNIS_STANDARD Team1) (replicate 48 Team1)
     = Inr ex_match_won"
  by code_simp

lemma run_to_tiebreak:
  "tennis_run (tennis_createInitialState ''m'' TENNIS_STANDARD Team1) six_all
     = Inr (ex_tiebreak \<lparr> team1 = 0, team2 = 0 \<rparr> Team1)"
  by code_simp

lemma run_to_sideout_won:
  "pickleball_run (pickleball_createInitialState ''m'' PICKLEBALL_SIDEOUT Team1)
     (replicate 24 Team1) = Inr ex_sideout_won"
  by code_simp

section \<open>Post-completion calls\<close>

text \<open>
  C3. When \<open>isComplete\<close> holds, \<open>scorePoint\<close> returns the state it was given, without an
  error, for either side, in the advantage-scoring engine and in the rally/side-out engine.
\<close>

theorem scorePoint_complete_noop:
  assumes "isComplete s" and "isComplete p"
  shows "tennis_scorePoint s t = Inr s \<and> pickleball_scorePoint p t = Inr p"
  using assms by (simp add: tennis_scorePoint_def pickleball_scorePoint_def)

theorem scorePoint_complete_noop_witness:
  "isComplete ex_match_won \<and> isComplete ex_sideout_won \<and>
   tennis_scorePoint ex_match_won Team2 = Inr ex_match_won \<and>
   pickleball_scorePoint ex_sideout_won Team2 = Inr ex_sideout_won"
proof -
  have a: "isComplete ex_match_won" by (simp add: ex_match_won_def)
  have b: "isComplete ex_sideout_won" by (simp add: ex_sideout_won_def)
  from scorePoint_complete_noop[OF a b, of Team2] a b show ?thesis by blast
qed

section \<open>Winner and completion flag\<close>

lemma tennis_step_winner:
  assumes "tennis_scorePoint s t = Inr s'" and "(matchWinner s \<noteq> None) = isComplete s"
  shows "(matchWinner s' \<noteq> None) = isComplete s'"
  using assms
  unfolding tennis_scorePoint_def scoreInTiebreak_def scoreInGame_def
  by (auto simp: Let_def split: if_splits option.splits sum.splits prod.splits)

lemma pickleball_step_winner:
  assumes "pickleball_scorePoint s t = Inr s'" and "(matchWinner s \<noteq> None) = isComplete s"
  shows "(matchWinner s' \<noteq> None) = isComplete s'"
  using assms
  unfolding pickleball_scorePoint_def
  by (auto simp: Let_def split: if_splits option.splits)

lemma tennis_run_winner:
  "tennis_run s ts = Inr s' \<Longrightarrow> (matchWinner s \<noteq> None) = isComplete s
     \<Longrightarrow> (matchWinner s' \<noteq> None) = isComplete s'"
proof (induction ts arbitrary: s)
  case Nil
  then show ?case by simp
next
  case (Cons t ts)
  then obtain s1 where s1: "tennis_scorePoint s t = Inr s1" and r: "tennis_run s1 ts = Inr s'"
    by (auto split: sum.splits)
  from tennis_step_winner[OF s1 Cons.prems(2)] Cons.IH[OF r] show ?case by blast
qed

lemma pickleball_run_winner:
  "pickleball_run s ts = Inr s' \<Longrightarrow> (matchWinner s \<noteq> None) = isComplete s
     \<Longrightarrow> (matchWinner s' \<noteq> None) = isComplete s'"
proof (induction ts arbitrary: s)
  case Nil
  then show ?case by simp
next
  case (Cons t ts)
  then obtain s1 where s1: "pickleball_scorePoint s t = Inr s1"
      and r: "pickleball_run s1 ts = Inr s'"
    by (auto split: sum.splits)
  from pickleball_step_winner[OF s1 Cons.prems(2)] Cons.IH[OF r] show ?case by blast
qed

text \<open>
  C5. In every state reached from \<open>createInitialState\<close> by a sequence of \<open>scorePoint\<close>
  calls, in either engine, \<open>matchWinner\<close> is set exactly when \<open>isComplete\<close> holds.
\<close>

theorem winner_iff_complete:
  "(tennis_run (tennis_createInitialState fid cfg srv) ts = Inr s \<longrightarrow>
      (matchWinner s \<noteq> None \<longleftrightarrow> isComplete s)) \<and>
   (pickleball_run (pickleball_createInitialState fid' cfg' srv') ts' = Inr p \<longrightarrow>
      (matchWinner p \<noteq> None \<longleftrightarrow> isComplete p))"
proof (intro conjI impI)
  assume "tennis_run (tennis_createInitialState fid cfg srv) ts = Inr s"
  then show "matchWinner s \<noteq> None \<longleftrightarrow> isComplete s"
    by (rule tennis_run_winner) (simp add: tennis_createInitialState_def)
next
  assume "pickleball_run (pickleball_createInitialState fid' cfg' srv') ts' = Inr p"
  then show "matchWinner p \<noteq> None \<longleftrightarrow> isComplete p"
    by (rule pickleball_run_winner) (simp add: pickleball_createInitialState_def)
qed

theorem winner_iff_complete_witness:
  "tennis_run (tennis_createInitialState ''m'' TENNIS_STANDARD Team1) (replicate 48 Team1)
     = Inr ex_match_won \<and>
   isComplete ex_match_won \<and> matchWinner ex_match_won \<noteq> None \<and>
   pickleball_run (pickleball_createInitialState ''m'' PICKLEBALL_SIDEOUT Team1)
     (replicate 24 Team1) = Inr ex_sideout_won \<and>
   isComplete ex_sideout_won \<and> matchWinner ex_sideout_won \<noteq> None"
proof -
  have a: "isComplete ex_match_won" by (simp add: ex_match_won_def)
  have b: "isComplete ex_sideout_won" by (simp add: ex_sideout_won_def)
  note w = winner_iff_complete[of "''m''" TENNIS_STANDARD Team1 "replicate 48 Team1" ex_match_won
      "''m''" PICKLEBALL_SIDEOUT Team1 "replicate 24 Team1" ex_sideout_won]
  from w run_to_match_won a have "matchWinner ex_match_won \<noteq> None" by blast
  moreover from w run_to_sideout_won b have "matchWinner ex_sideout_won \<noteq> None" by blast
  ultimately show ?thesis using run_to_match_won run_to_sideout_won a b by blast
qed

section \<open>Tiebreak points\<close>

text \<open>
  C6. A tiebreak point adds one to the tally of the scoring side and leaves the other
  tally alone. The scoring side wins the set exactly when its new tally has reached the
  target and is at least two ahead; the target is \<open>finalSetTiebreakPoints\<close> when the set
  is the deciding set (number \<open>2 * setsToWin - 1\<close>) and \<open>finalSetTiebreak\<close> is on, and 7
  otherwise. When the set is not won, it keeps the winner it had and play goes on.
\<close>

theorem tiebreak_win_condition:
  assumes "tiebreakScore st = Some tb"
  shows "\<exists>newSet setWon tb'.
           scoreTiebreakPoint st t cfg = Inr (newSet, setWon) \<and>
           tiebreakScore newSet = Some tb' \<and>
           tbOf t tb' = tbOf t tb + 1 \<and>
           tbOf (otherTeam t) tb' = tbOf (otherTeam t) tb \<and>
           setWon =
             (if tbOf t tb' \<ge> (if setNumber st = setsToWin cfg * 2 - 1 \<and> finalSetTiebreak cfg
                                then finalSetTiebreakPoints cfg else 7)
                 \<and> tbOf t tb' - tbOf (otherTeam t) tb' \<ge> 2
              then Some t else None) \<and>
           winner newSet = (if setWon = None then winner st else Some t)"
  using assms
  by (cases t) (simp_all add: scoreTiebreakPoint_def tiebreakTarget_def Let_def)

theorem tiebreak_win_condition_witness:
  "tiebreakScore (ex_tiebreak_set \<lparr> team1 = 7, team2 = 6 \<rparr>) = Some \<lparr> team1 = 7, team2 = 6 \<rparr> \<and>
   (\<exists>newSet tb'.
      scoreTiebreakPoint (ex_tiebreak_set \<lparr> team1 = 7, team2 = 6 \<rparr>) Team1 TENNIS_STANDARD
        = Inr (newSet, Some Team1) \<and>
      tiebreakScore newSet = Some tb' \<and> team1 tb' = 8 \<and> team2 tb' = 6 \<and>
      winner newSet = Some Team1)"
proof -
  have a: "tiebreakScore (ex_tiebreak_set \<lparr> team1 = 7, team2 = 6 \<rparr>) = Some \<lparr> team1 = 7, team2 = 6 \<rparr>"
    by (simp add: ex_tiebreak_set_def)
  from tiebreak_win_condition[OF a, of Team1 TENNIS_STANDARD]
  obtain newSet setWon tb' where r:
    "scoreTiebreakPoint (ex_tiebreak_set \<lparr> team1 = 7, team2 = 6 \<rparr>) Team1 TENNIS_STANDARD
       = Inr (newSet, setWon)"
    "tiebreakScore newSet = Some tb'"
    "tbOf Team1 tb' = tbOf Team1 \<lparr> team1 = 7, team2 = 6 \<rparr> + 1"
    "tbOf (otherTeam Team1) tb' = tbOf (otherTeam Team1) \<lparr> team1 = 7, team2 = 6 \<rparr>"
    "setWon =
       (if tbOf Team1 tb' \<ge> (if setNumber (ex_tiebreak_set \<lparr> team1 = 7, team2 = 6 \<rparr>)
                                  = setsToWin TENNIS_STANDARD * 2 - 1
                                \<and> finalSetTiebreak TENNIS_STANDARD
                             then finalSetTiebreakPoints TENNIS_STANDARD else 7)
           \<and> tbOf Team1 tb' - tbOf (otherTeam Team1) tb' \<ge> 2
        then Some Team1 else None)"
    "winner newSet = (if setWon = None then winner (ex_tiebreak_set \<lparr> team1 = 7, team2 = 6 \<rparr>)
                      else Some Team1)"
    by blast
  from r(3,4) have t: "team1 tb' = 8" "team2 tb' = 6" by simp_all
  with r(5) have w: "setWon = Some Team1"
    by (simp add: ex_tiebreak_set_def TENNIS_STANDARD_def)
  with r(1,2,6) t a show ?thesis by auto
qed

section \<open>Tiebreak tally\<close>

lemma scoreTiebreakPoint_total:
  "tiebreakScore cs \<noteq> None \<Longrightarrow>
     \<exists>ns w. scoreTiebreakPoint cs t cfg = Inr (ns, w) \<and> tiebreakScore ns \<noteq> None"
  by (auto simp: scoreTiebreakPoint_def Let_def)

lemma wellFormed_scoreInGame:
  assumes "wellFormed s" and "isTiebreak cs \<longrightarrow> tiebreakScore cs \<noteq> None"
  shows "wellFormed (scoreInGame s cs t)"
  using assms
  by (simp add: scoreInGame_def wellFormed_def Let_def list_all_mapReplace createInitialSet_def
        split: prod.split option.split)

lemma wellFormed_scoreInTiebreak:
  assumes "wellFormed s" and "tiebreakScore cs \<noteq> None"
  shows "\<exists>s'. scoreInTiebreak s cs t = Inr s' \<and> wellFormed s'"
proof -
  from assms(2) obtain ns w where ns: "scoreTiebreakPoint cs t (config s) = Inr (ns, w)"
      "tiebreakScore ns \<noteq> None"
    using scoreTiebreakPoint_total by blast
  with assms(1) show ?thesis
    by (simp add: scoreInTiebreak_def wellFormed_def Let_def list_all_mapReplace
          createInitialSet_def split: option.split)
qed

text \<open>A well-formed state never makes \<open>scorePoint\<close> throw, and the next state is well-formed.\<close>

lemma tennis_step_wellFormed:
  assumes "wellFormed s"
  shows "\<exists>s'. tennis_scorePoint s t = Inr s' \<and> wellFormed s'"
proof (cases "isComplete s")
  case True
  with assms show ?thesis by (simp add: tennis_scorePoint_def)
next
  case False
  from assms obtain cs where cs: "arrayGet (sets s) (currentSetIndex s) = Some cs"
    by (auto simp: wellFormed_def arrayGet_def)
  then have "cs \<in> set (sets s)" by (auto dest!: arrayGet_Some)
  with assms have tb: "isTiebreak cs \<longrightarrow> tiebreakScore cs \<noteq> None"
    by (auto simp: wellFormed_def list_all_iff)
  show ?thesis
  proof (cases "isTiebreak cs")
    case True
    with tb wellFormed_scoreInTiebreak[OF assms, of cs t] cs False show ?thesis
      by (simp add: tennis_scorePoint_def)
  next
    case F: False
    with wellFormed_scoreInGame[OF assms tb, of t] cs False show ?thesis
      by (simp add: tennis_scorePoint_def)
  qed
qed

lemma tennis_run_wellFormed:
  "wellFormed s \<Longrightarrow> \<exists>s'. tennis_run s ts = Inr s' \<and> wellFormed s'"
proof (induction ts arbitrary: s)
  case Nil
  then show ?case by simp
next
  case (Cons t ts)
  from tennis_step_wellFormed[OF Cons.prems, of t]
  obtain s1 where s1: "tennis_scorePoint s t = Inr s1" "wellFormed s1" by blast
  from Cons.IH[OF s1(2)] s1(1) show ?case by simp
qed

lemma wellFormed_initial: "wellFormed (tennis_createInitialState fid cfg srv)"
  by (simp add: wellFormed_def tennis_createInitialState_def createInitialSet_def)

text \<open>
  C9. Every sequence of \<open>scorePoint\<close> calls from \<open>createInitialState\<close> in the
  advantage-scoring engine returns a state, in which every set with \<open>isTiebreak\<close> has a
  tiebreak tally, and on which no further \<open>scorePoint\<close> call throws
  "Tiebreak score not initialized".
\<close>

theorem tiebreak_tally_initialized:
  "\<exists>s. tennis_run (tennis_createInitialState fid cfg srv) ts = Inr s \<and>
        (\<forall>st \<in> set (sets s). isTiebreak st \<longrightarrow> tiebreakScore st \<noteq> None) \<and>
        (\<forall>t. tennis_scorePoint s t \<noteq> Inl TiebreakScoreNotInitialized)"
proof -
  from tennis_run_wellFormed[OF wellFormed_initial, of fid cfg srv ts]
  obtain s where s: "tennis_run (tennis_createInitialState fid cfg srv) ts = Inr s" "wellFormed s"
    by blast
  from s(2) have "\<forall>st \<in> set (sets s). isTiebreak st \<longrightarrow> tiebreakScore st \<noteq> None"
    by (simp add: wellFormed_def list_all_iff)
  moreover have "\<forall>t. tennis_scorePoint s t \<noteq> Inl TiebreakScoreNotInitialized"
    using tennis_step_wellFormed[OF s(2)] by (metis sum.distinct(1))
  ultimately show ?thesis using s(1) by blast
qed

theorem tiebreak_tally_initialized_witness:
  "tennis_run (tennis_createInitialState ''m'' TENNIS_STANDARD Team1) six_all
     = Inr (ex_tiebreak \<lparr> team1 = 0, team2 = 0 \<rparr> Team1) \<and>
   ex_tiebreak_set \<lparr> team1 = 0, team2 = 0 \<rparr>
     \<in> set (sets (ex_tiebreak \<lparr> team1 = 0, team2 = 0 \<rparr> Team1)) \<and>
   isTiebreak (ex_tiebreak_set \<lparr> team1 = 0, team2 = 0 \<rparr>) \<and>
   tiebreakScore (ex_tiebreak_set \<lparr> team1 = 0, team2 = 0 \<rparr>) \<noteq> None \<and>
   tennis_scorePoint (ex_tiebreak \<lparr> team1 = 0, team2 = 0 \<rparr> Team1) Team2
     \<noteq> Inl TiebreakScoreNotInitialized"
proof -
  let ?s = "ex_tiebreak \<lparr> team1 = 0, team2 = 0 \<rparr> Team1"
  let ?st = "ex_tiebreak_set \<lparr> team1 = 0, team2 = 0 \<rparr>"
  have m: "?st \<in> set (sets ?s)" by (simp add: ex_tiebreak_def)
  have i: "isTiebreak ?st" by (simp add: ex_tiebreak_set_def)
  from tiebreak_tally_initialized[of "''m''" TENNIS_STANDARD Team1 six_all] run_to_tiebreak
  have "(\<forall>st \<in> set (sets ?s). isTiebreak st \<longrightarrow> tiebreakScore st \<noteq> None) \<and>
        (\<forall>t. tennis_scorePoint ?s t \<noteq> Inl TiebreakScoreNotInitialized)"
    by auto
  with m i run_to_tiebreak show ?thesis by blast
qed

section \<open>Side-out serving\<close>

text \<open>
  C8. In the rally/side-out engine with \<open>rallyScoring\<close> off, for every state of a match
  in progress (a complete match falls under the no-op rule that opens the engine's
  contract) and every scoring side that is not the serving side, \<open>scorePoint\<close> returns a
  state with both point tallies and the set list unchanged; server slot 1 becomes slot 2
  on the same serving side, and from slot 2 the serve passes to the scoring side, the
  opposing one, with the slot back at 1.
\<close>

theorem sideout_serving_discipline:
  assumes "\<not> isComplete s" and "\<not> rallyScoring (config s)" and "t \<noteq> servingTeam s"
  shows "\<exists>s'. pickleball_scorePoint s t = Inr s' \<and>
           pbTeam1Points (currentGame s') = pbTeam1Points (currentGame s) \<and>
           pbTeam2Points (currentGame s') = pbTeam2Points (currentGame s) \<and>
           sets s' = sets s \<and>
           (serverNumber (currentGame s) = Server1 \<longrightarrow>
              serverNumber (currentGame s') = Server2 \<and> servingTeam s' = servingTeam s) \<and>
           (serverNumber (currentGame s) = Server2 \<longrightarrow>
              serverNumber (currentGame s') = Server1 \<and> servingTeam s' = t \<and>
              servingTeam s' = otherTeam (servingTeam s))"
proof (cases "serverNumber (currentGame s)")
  case Server1
  with assms show ?thesis
    by (simp add: pickleball_scorePoint_def Let_def)
next
  case Server2
  with assms show ?thesis
    by (cases t; cases "servingTeam s") (simp_all add: pickleball_scorePoint_def Let_def)
qed

theorem sideout_serving_discipline_witness:
  "\<not> isComplete (pickleball_createInitialState ''m'' PICKLEBALL_SIDEOUT Team1) \<and>
   \<not> rallyScoring (config (pickleball_createInitialState ''m'' PICKLEBALL_SIDEOUT Team1)) \<and>
   Team2 \<noteq> servingTeam (pickleball_createInitialState ''m'' PICKLEBALL_SIDEOUT Team1) \<and>
   serverNumber (currentGame (pickleball_createInitialState ''m'' PICKLEBALL_SIDEOUT Team1))
     = Server1 \<and>
   (\<exists>s'. pickleball_scorePoint (pickleball_createInitialState ''m'' PICKLEBALL_SIDEOUT Team1) Team2
            = Inr s' \<and>
          pbTeam1Points (currentGame s') = 0 \<and> pbTeam2Points (currentGame s') = 0 \<and>
          sets s' = [createInitialSet 1] \<and>
          serverNumber (currentGame s') = Server2 \<and> servingTeam s' = Team1)"
proof -
  let ?s = "pickleball_createInitialState ''m'' PICKLEBALL_SIDEOUT Team1"
  have a: "\<not> isComplete ?s" by (simp add: pickleball_createInitialState_def)
  have b: "\<not> rallyScoring (config ?s)"
    by (simp add: pickleball_createInitialState_def PICKLEBALL_SIDEOUT_def)
  have c: "Team2 \<noteq> servingTeam ?s" by (simp add: pickleball_createInitialState_def)
  have d: "serverNumber (currentGame ?s) = Server1"
    by (simp add: pickleball_createInitialState_def pickleball_createInitialGame_def)
  have e: "pbTeam1Points (currentGame ?s) = 0" "pbTeam2Points (currentGame ?s) = 0"
      "sets ?s = [createInitialSet 1]" "servingTeam ?s = Team1"
    by (simp_all add: pickleball_createInitialState_def pickleball_createInitialGame_def)
  from sideout_serving_discipline[OF a b c] d e have
    "\<exists>s'. pickleball_scorePoint ?s Team2 = Inr s' \<and>
          pbTeam1Points (currentGame s') = 0 \<and> pbTeam2Points (currentGame s') = 0 \<and>
          sets s' = [createInitialSet 1] \<and>
          serverNumber (currentGame s') = Server2 \<and> servingTeam s' = Team1"
    by auto
  with a b c d show ?thesis by blast
qed

section \<open>Default points target\<close>

text \<open>
  C10. When the policy has no \<open>pointsPerGame\<close>, the game-win check of the rally/side-out
  engine uses 11: a point that is scored ends the game (the match completes or the next
  set starts) exactly when the new tally of the scoring side is at least 11 and has the
  lead the policy requires.
\<close>

theorem pickleball_default_target:
  assumes "pointsPerGame (config s) = None"
    and "\<not> isComplete s"
    and "rallyScoring (config s) \<or> t = servingTeam s"
    and "pickleball_scorePoint s t = Inr s'"
  shows "pointsToWin (config s) = 11 \<and>
         ((isComplete s' \<or> currentSetIndex s' = currentSetIndex s + 1) \<longleftrightarrow>
            (pbPointsOf t (currentGame s) + 1 \<ge> 11 \<and>
             (if winByTwo (config s)
              then pbPointsOf t (currentGame s) + 1 - pbPointsOf (otherTeam t) (currentGame s) \<ge> 2
              else pbPointsOf t (currentGame s) + 1 > pbPointsOf (otherTeam t) (currentGame s))))"
  using assms
  by (auto simp: pickleball_scorePoint_def pointsToWin_def Let_def split: if_splits option.splits)

theorem pickleball_default_target_witness:
  "pointsPerGame (config ex_game_point) = None \<and>
   \<not> isComplete ex_game_point \<and>
   rallyScoring (config ex_game_point) \<and>
   pickleball_scorePoint ex_game_point Team1 =
     Inr (ex_game_point\<lparr>
       sets := [(createInitialSet 1)\<lparr> team1Games := 1, winner := Some Team1 \<rparr>, createInitialSet 2],
       currentSetIndex := 1,
       currentGame := pickleball_createInitialGame,
       servingTeam := Team2 \<rparr>) \<and>
   pointsToWin (config ex_game_point) = 11 \<and>
   pbPointsOf Team1 (currentGame ex_game_point) + 1 \<ge> 11"
proof -
  let ?s' = "ex_game_point\<lparr>
       sets := [(createInitialSet 1)\<lparr> team1Games := 1, winner := Some Team1 \<rparr>, createInitialSet 2],
       currentSetIndex := 1,
       currentGame := pickleball_createInitialGame,
       servingTeam := Team2 \<rparr>"
  have a: "pointsPerGame (config ex_game_point) = None"
    by (simp add: ex_game_point_def)
  have b: "\<not> isComplete ex_game_point" by (simp add: ex_game_point_def)
  have c: "rallyScoring (config ex_game_point)"
    by (simp add: ex_game_point_def PICKLEBALL_STANDARD_def)
  then have c': "rallyScoring (config ex_game_point) \<or> Team1 = servingTeam ex_game_point" ..
  have d: "pickleball_scorePoint ex_game_point Team1 = Inr ?s'"
    by code_simp
  have e: "currentSetIndex ?s' = currentSetIndex ex_game_point + 1"
    by (simp add: ex_game_point_def)
  from pickleball_default_target[OF a b c' d] e
  have "pointsToWin (config ex_game_point) = 11 \<and>
        pbPointsOf Team1 (currentGame ex_game_point) + 1 \<ge> 11"
    by blast
  with a b c d show ?thesis by blast
qed

section \<open>Server rotation after a game\<close>

lemma otherTeam_eq: "(if u = Team1 then Team2 else Team1) = otherTeam u"
  by (cases u) simp_all

lemma scoreTiebreakPoint_games:
  assumes "scoreTiebreakPoint cs t cfg = Inr (ns, w)"
  shows "team1Games ns + team2Games ns = team1Games cs + team2Games cs + (if w = None then 0 else 1)"
  using assms
  by (cases t) (auto simp: scoreTiebreakPoint_def Let_def split: option.splits if_splits)

lemma server_after_tiebreak_point:
  assumes r: "scoreInTiebreak s cs t = Inr s'"
    and i: "0 \<le> currentSetIndex s" "nat (currentSetIndex s) < length (sets s)"
    and cs: "cs = sets s ! nat (currentSetIndex s)"
    and g: "team1Games (sets s' ! nat (currentSetIndex s)) + team2Games (sets s' ! nat (currentSetIndex s))
            = team1Games cs + team2Games cs + 1"
  shows "servingTeam s' = (if isComplete s' then servingTeam s else otherTeam (servingTeam s))
         \<or> isComplete s"
proof -
  from r obtain ns w where ns: "scoreTiebreakPoint cs t (config s) = Inr (ns, w)"
    by (auto simp: scoreInTiebreak_def split: sum.splits)
  show ?thesis
  proof (cases w)
    case None
    with r ns i have "sets s' ! nat (currentSetIndex s) = ns"
      by (auto simp: scoreInTiebreak_def Let_def mapReplace_update)
    with scoreTiebreakPoint_games[OF ns] None g show ?thesis by simp
  next
    case (Some a)
    with r ns show ?thesis
      by (auto simp: scoreInTiebreak_def Let_def updateServerAfterGame_def otherTeam_eq
            split: if_splits)
  qed
qed

lemma server_after_game_point:
  assumes r: "s' = scoreInGame s cs t"
    and i: "0 \<le> currentSetIndex s" "nat (currentSetIndex s) < length (sets s)"
    and cs: "cs = sets s ! nat (currentSetIndex s)"
    and g: "team1Games (sets s' ! nat (currentSetIndex s)) + team2Games (sets s' ! nat (currentSetIndex s))
            = team1Games cs + team2Games cs + 1"
  shows "servingTeam s' = (if isComplete s' then servingTeam s else otherTeam (servingTeam s))
         \<or> isComplete s"
proof (cases "scoreRegularPoint (currentGame s) t (advantageScoring (config s))")
  case (Pair newGame gameWon)
  show ?thesis
  proof (cases gameWon)
    case None
    with Pair r have "sets s' = sets s" by (simp add: scoreInGame_def)
    with g cs show ?thesis by simp
  next
    case (Some a)
    with Pair r show ?thesis
      by (simp add: scoreInGame_def Let_def updateServerAfterGame_def otherTeam_eq
            split: option.split)
  qed
qed

text \<open>
  C4 (amended). A game completes in a \<open>scorePoint\<close> transition when the games played in
  the set in progress go up by one (a regular game or a tiebreak was won). After every such
  transition that does not complete the match, including one that ends a set, the serving
  side is the opposite of the serving side before; after the game that completes the match
  the serving side is the one before.
\<close>

theorem server_rotates_after_game:
  assumes "tennis_scorePoint s t = Inr s'"
    and "\<not> isComplete s"
    and "team1Games (sets s' ! nat (currentSetIndex s)) + team2Games (sets s' ! nat (currentSetIndex s))
         = team1Games (sets s ! nat (currentSetIndex s)) + team2Games (sets s ! nat (currentSetIndex s)) + 1"
  shows "servingTeam s' = (if isComplete s' then servingTeam s else otherTeam (servingTeam s))"
proof -
  from assms(1,2) obtain cs where cs: "arrayGet (sets s) (currentSetIndex s) = Some cs"
    by (auto simp: tennis_scorePoint_def split: option.splits)
  then have i: "0 \<le> currentSetIndex s" "nat (currentSetIndex s) < length (sets s)"
      and c: "cs = sets s ! nat (currentSetIndex s)"
    by (auto dest: arrayGet_Some)
  show ?thesis
  proof (cases "isTiebreak cs")
    case True
    with assms(1,2) cs have "scoreInTiebreak s cs t = Inr s'"
      by (simp add: tennis_scorePoint_def)
    from server_after_tiebreak_point[OF this i c] assms(2,3) c show ?thesis by simp
  next
    case False
    with assms(1,2) cs have "s' = scoreInGame s cs t"
      by (simp add: tennis_scorePoint_def)
    from server_after_game_point[OF this i c] assms(2,3) c show ?thesis by simp
  qed
qed

theorem server_rotates_after_game_witness:
  "tennis_scorePoint (tennis_createInitialState ''m'' TENNIS_STANDARD Team1
       \<lparr> currentGame := \<lparr> team1Points = P40, team2Points = P0 \<rparr> \<rparr>) Team1
     = Inr (tennis_createInitialState ''m'' TENNIS_STANDARD Team1
       \<lparr> sets := [(createInitialSet 1)\<lparr> team1Games := 1 \<rparr>], servingTeam := Team2 \<rparr>) \<and>
   \<not> isComplete (tennis_createInitialState ''m'' TENNIS_STANDARD Team1
       \<lparr> currentGame := \<lparr> team1Points = P40, team2Points = P0 \<rparr> \<rparr>) \<and>
   servingTeam (tennis_createInitialState ''m'' TENNIS_STANDARD Team1
       \<lparr> sets := [(createInitialSet 1)\<lparr> team1Games := 1 \<rparr>], servingTeam := Team2 \<rparr>)
     = otherTeam Team1"
proof -
  let ?s = "tennis_createInitialState ''m'' TENNIS_STANDARD Team1
       \<lparr> currentGame := \<lparr> team1Points = P40, team2Points = P0 \<rparr> \<rparr>"
  let ?s' = "tennis_createInitialState ''m'' TENNIS_STANDARD Team1
       \<lparr> sets := [(createInitialSet 1)\<lparr> team1Games := 1 \<rparr>], servingTeam := Team2 \<rparr>"
  have a: "tennis_scorePoint ?s Team1 = Inr ?s'" by code_simp
  have b: "\<not> isComplete ?s" by (simp add: tennis_createInitialState_def)
  have c: "team1Games (sets ?s' ! nat (currentSetIndex ?s)) + team2Games (sets ?s' ! nat (currentSetIndex ?s))
         = team1Games (sets ?s ! nat (currentSetIndex ?s)) + team2Games (sets ?s ! nat (currentSetIndex ?s)) + 1"
    by (simp add: tennis_createInitialState_def createInitialSet_def)
  have d: "\<not> isComplete ?s'" "servingTeam ?s = Team1"
    by (simp_all add: tennis_createInitialState_def)
  from server_rotates_after_game[OF a b c] d have "servingTeam ?s' = otherTeam Team1"
    by simp
  with a b show ?thesis by blast
qed

text \<open>
  The claim as written includes the game that ends the match. From 6-0, 5-0, 40-0 (reached
  by 47 points of team 1) the next point of team 1 wins game, set and match, and the serving
  side stays team 2.
\<close>

theorem server_on_match_end_counterexample:
  "tennis_run (tennis_createInitialState ''m'' TENNIS_STANDARD Team1) (replicate 47 Team1)
     = Inr ex_match_point \<and>
   \<not> isComplete ex_match_point \<and>
   tennis_scorePoint ex_match_point Team1 = Inr ex_match_won \<and>
   team1Games (sets ex_match_won ! 1) = team1Games (sets ex_match_point ! 1) + 1 \<and>
   servingTeam ex_match_point = Team2 \<and>
   servingTeam ex_match_won = Team2"
proof -
  have "tennis_scorePoint ex_match_point Team1 = Inr ex_match_won" by code_simp
  moreover have "\<not> isComplete ex_match_point"
      "team1Games (sets ex_match_won ! 1) = team1Games (sets ex_match_point ! 1) + 1"
      "servingTeam ex_match_point = Team2" "servingTeam ex_match_won = Team2"
    by (simp_all add: ex_match_point_def ex_match_won_def)
  ultimately show ?thesis using run_to_match_point by simp
qed

section \<open>Serving in the tiebreak\<close>

lemma spec_tiebreakServer_first: "spec_tiebreakServer a 1 = a"
  by (simp add: spec_tiebreakServer_def)

lemma spec_tiebreakServer_pairs:
  "k \<ge> 1 \<Longrightarrow> spec_tiebreakServer a (2 * k + 1) = spec_tiebreakServer a (2 * k) \<and>
     spec_tiebreakServer a (2 * k) = otherTeam (spec_tiebreakServer a (2 * k - 1))"
proof -
  assume k: "k \<ge> 1"
  then obtain j where j: "k = Suc j" by (cases k) auto
  have "(2 * k - 1) div 2 = j" using j by simp
  moreover have "(2 * k) div 2 = Suc j" "(2 * k + 1) div 2 = Suc j" using j by simp_all
  ultimately show ?thesis
    by (cases a) (simp_all add: spec_tiebreakServer_def)
qed

lemma updateServerInTiebreak_nat:
  "updateServerInTiebreak srv (int (Suc m)) = (if even m then otherTeam srv else srv)"
proof -
  have "(int m mod 2 = 0) = even m"
    by presburger
  then show ?thesis
    by (cases srv) (auto simp: updateServerInTiebreak_def)
qed

lemma spec_tiebreakServer_step:
  "spec_tiebreakServer a (Suc (Suc m)) =
     (if even m then otherTeam (spec_tiebreakServer a (Suc m)) else spec_tiebreakServer a (Suc m))"
proof (cases "even m")
  case True
  then obtain j where "m = 2 * j" by (auto elim: evenE)
  then show ?thesis by (cases a) (simp_all add: spec_tiebreakServer_def)
next
  case False
  then obtain j where "m = 2 * j + 1" by (auto elim: oddE)
  then show ?thesis by (cases a) (simp_all add: spec_tiebreakServer_def)
qed

lemma tennis_step_index_mono:
  assumes "tennis_scorePoint s t = Inr s'"
  shows "currentSetIndex s \<le> currentSetIndex s'"
  using assms
  unfolding tennis_scorePoint_def scoreInTiebreak_def scoreInGame_def
  by (auto simp: Let_def split: if_splits option.splits sum.splits prod.splits)

lemma tennis_run_index_mono:
  "tennis_run s ts = Inr s' \<Longrightarrow> currentSetIndex s \<le> currentSetIndex s'"
proof (induction ts arbitrary: s)
  case Nil
  then show ?case by simp
next
  case (Cons t ts)
  then obtain s1 where s1: "tennis_scorePoint s t = Inr s1" and r: "tennis_run s1 ts = Inr s'"
    by (auto split: sum.splits)
  from tennis_step_index_mono[OF s1] Cons.IH[OF r] show ?case by simp
qed

lemma tennis_run_complete: "isComplete s \<Longrightarrow> tennis_run s ts = Inr s"
  by (induction ts) (simp_all add: tennis_scorePoint_def)

text \<open>
  A tiebreak point after which the match is not complete and the set index is the same
  left the tiebreak in progress: the tally went up by one and the serving side was set by
  \<open>updateServerInTiebreak\<close> from the new total.
\<close>

lemma tiebreak_continue_step:
  assumes cs: "arrayGet (sets s) (currentSetIndex s) = Some cs"
    and tb: "isTiebreak cs" "tiebreakScore cs = Some tb"
    and nc: "\<not> isComplete s"
    and r: "tennis_scorePoint s t = Inr s1"
    and still: "\<not> isComplete s1" "currentSetIndex s1 = currentSetIndex s"
  shows "\<exists>cs1 tb1. arrayGet (sets s1) (currentSetIndex s1) = Some cs1 \<and>
           isTiebreak cs1 \<and> tiebreakScore cs1 = Some tb1 \<and>
           team1 tb1 + team2 tb1 = team1 tb + team2 tb + 1 \<and>
           servingTeam s1 = updateServerInTiebreak (servingTeam s) (team1 tb + team2 tb + 1)"
proof -
  from cs have i: "0 \<le> currentSetIndex s" "nat (currentSetIndex s) < length (sets s)"
    by (auto dest: arrayGet_Some)
  from cs tb nc r have r': "scoreInTiebreak s cs t = Inr s1"
    by (simp add: tennis_scorePoint_def)
  obtain ns w where ns: "scoreTiebreakPoint cs t (config s) = Inr (ns, w)"
    using r' by (auto simp: scoreInTiebreak_def split: sum.splits)
  have w: "w = None"
  proof (cases w)
    case (Some a)
    with r' ns still show ?thesis
      by (auto simp: scoreInTiebreak_def Let_def split: if_splits)
  qed simp
  from ns w tb obtain tb1 where tb1: "tiebreakScore ns = Some tb1" "isTiebreak ns"
      "team1 tb1 + team2 tb1 = team1 tb + team2 tb + 1"
    by (cases t) (auto simp: scoreTiebreakPoint_def Let_def split: if_splits)
  from r' ns w tb1 i have
    "arrayGet (sets s1) (currentSetIndex s1) = Some ns"
    "servingTeam s1 = updateServerInTiebreak (servingTeam s) (team1 tb + team2 tb + 1)"
    by (auto simp: scoreInTiebreak_def Let_def mapReplace_update arrayGet_def)
  with tb1 show ?thesis by blast
qed

lemma tiebreak_run_server:
  assumes "arrayGet (sets s) (currentSetIndex s) = Some cs"
    and "isTiebreak cs" and "tiebreakScore cs = Some tb"
    and "team1 tb + team2 tb = int m"
    and "\<not> isComplete s"
    and "tennis_run s ts = Inr s'"
    and "\<not> isComplete s'" and "currentSetIndex s' = currentSetIndex s"
    and "servingTeam s = spec_tiebreakServer a (Suc m)"
  shows "servingTeam s' = spec_tiebreakServer a (Suc (m + length ts))"
  using assms
proof (induction ts arbitrary: s cs tb m)
  case Nil
  then show ?case by simp
next
  case (Cons t ts)
  from Cons.prems(6) obtain s1 where s1: "tennis_scorePoint s t = Inr s1"
      and r: "tennis_run s1 ts = Inr s'"
    by (auto split: sum.splits)
  have nc1: "\<not> isComplete s1"
  proof
    assume "isComplete s1"
    from tennis_run_complete[OF this, of ts] r Cons.prems(7) \<open>isComplete s1\<close>
    show False by simp
  qed
  from tennis_step_index_mono[OF s1] tennis_run_index_mono[OF r] Cons.prems(8)
  have idx: "currentSetIndex s1 = currentSetIndex s" by simp
  from tiebreak_continue_step[OF Cons.prems(1,2,3,5) s1 nc1 idx]
  obtain cs1 tb1 where st:
    "arrayGet (sets s1) (currentSetIndex s1) = Some cs1" "isTiebreak cs1"
    "tiebreakScore cs1 = Some tb1" "team1 tb1 + team2 tb1 = team1 tb + team2 tb + 1"
    "servingTeam s1 = updateServerInTiebreak (servingTeam s) (team1 tb + team2 tb + 1)"
    by blast
  from st(4) Cons.prems(4) have tot: "team1 tb1 + team2 tb1 = int (Suc m)" by simp
  from st(5) Cons.prems(4) have "servingTeam s1 = updateServerInTiebreak (servingTeam s) (int (Suc m))"
    by (simp add: add.commute)
  with Cons.prems(9) have srv: "servingTeam s1 = spec_tiebreakServer a (Suc (Suc m))"
    by (simp only: updateServerInTiebreak_nat spec_tiebreakServer_step)
  from idx Cons.prems(8) have idx': "currentSetIndex s' = currentSetIndex s1" by simp
  from Cons.IH[OF st(1,2,3) tot nc1 r Cons.prems(7) idx' srv]
  show ?case by simp
qed

text \<open>
  C7. Take a tiebreak that starts at 0-0 with side \<open>a\<close> serving, and score any \<open>n\<close>
  points after which the tiebreak is still in progress (the match is not complete and the
  set index has not moved). The side then serving, which serves point \<open>n + 1\<close>, is the one
  the rule names: \<open>a\<close> for point 1, the other side for points 2 and 3, \<open>a\<close> for points 4
  and 5, and so on.
\<close>

theorem tiebreak_serve_rotation:
  assumes "arrayGet (sets s) (currentSetIndex s) = Some cs"
    and "isTiebreak cs" and "tiebreakScore cs = Some \<lparr> team1 = 0, team2 = 0 \<rparr>"
    and "\<not> isComplete s"
    and "tennis_run s ts = Inr s'"
    and "\<not> isComplete s'" and "currentSetIndex s' = currentSetIndex s"
  shows "servingTeam s' = spec_tiebreakServer (servingTeam s) (length ts + 1)"
proof -
  have t0: "team1 \<lparr> team1 = 0, team2 = 0 \<rparr> + team2 \<lparr> team1 = 0, team2 = 0 \<rparr> = int 0"
    by simp
  have a: "servingTeam s = spec_tiebreakServer (servingTeam s) (Suc 0)"
    by (simp add: spec_tiebreakServer_def)
  from tiebreak_run_server[OF assms(1,2,3) t0 assms(4,5,6,7) a] show ?thesis by simp
qed

theorem tiebreak_serve_rotation_witness:
  "arrayGet (sets (ex_tiebreak \<lparr> team1 = 0, team2 = 0 \<rparr> Team1))
      (currentSetIndex (ex_tiebreak \<lparr> team1 = 0, team2 = 0 \<rparr> Team1))
     = Some (ex_tiebreak_set \<lparr> team1 = 0, team2 = 0 \<rparr>) \<and>
   isTiebreak (ex_tiebreak_set \<lparr> team1 = 0, team2 = 0 \<rparr>) \<and>
   tiebreakScore (ex_tiebreak_set \<lparr> team1 = 0, team2 = 0 \<rparr>) = Some \<lparr> team1 = 0, team2 = 0 \<rparr> \<and>
   \<not> isComplete (ex_tiebreak \<lparr> team1 = 0, team2 = 0 \<rparr> Team1) \<and>
   tennis_run (ex_tiebreak \<lparr> team1 = 0, team2 = 0 \<rparr> Team1) [Team1, Team2, Team2]
     = Inr (ex_tiebreak \<lparr> team1 = 1, team2 = 2 \<rparr> Team1) \<and>
   spec_tiebreakServer Team1 4 = Team1 \<and>
   servingTeam (ex_tiebreak \<lparr> team1 = 1, team2 = 2 \<rparr> Team1) = Team1"
proof -
  let ?s = "ex_tiebreak \<lparr> team1 = 0, team2 = 0 \<rparr> Team1"
  let ?s' = "ex_tiebreak \<lparr> team1 = 1, team2 = 2 \<rparr> Team1"
  let ?cs = "ex_tiebreak_set \<lparr> team1 = 0, team2 = 0 \<rparr>"
  have a: "arrayGet (sets ?s) (currentSetIndex ?s) = Some ?cs"
    by (simp add: ex_tiebreak_def arrayGet_def)
  have b: "isTiebreak ?cs" "tiebreakScore ?cs = Some \<lparr> team1 = 0, team2 = 0 \<rparr>"
    by (simp_all add: ex_tiebreak_set_def)
  have c: "\<not> isComplete ?s" by (simp add: ex_tiebreak_def)
  have d: "tennis_run ?s [Team1, Team2, Team2] = Inr ?s'" by code_simp
  have e: "\<not> isComplete ?s'" "currentSetIndex ?s' = currentSetIndex ?s"
    by (simp_all add: ex_tiebreak_def)
  have f: "servingTeam ?s = Team1" by (simp add: ex_tiebreak_def)
  have g: "spec_tiebreakServer Team1 4 = Team1" by (simp add: spec_tiebreakServer_def)
  have "length [Team1, Team2, Team2] + 1 = (4::nat)" by simp
  with tiebreak_serve_rotation[OF a b c d e] f g
  have "servingTeam ?s' = Team1" by (simp only:)
  with a b c d g show ?thesis by blast
qed

section \<open>Undo\<close>

lemma undoLastPoint_empty: "undoLastPoint s [] = s"
  by (simp add: undoLastPoint_def)

text \<open>On a history that is not empty the engine returns the snapshot of its last event.\<close>

lemma undoLastPoint_last: "undoLastPoint s (es @ [e]) = scoreSnapshot e"
  by (simp add: undoLastPoint_def)

text \<open>The undo mutation of the scorer page reads the event before the last one.\<close>

lemma useUndoPoint_previous: "useUndoPoint (es @ [e1, e2]) = Inr (Some (scoreSnapshot e1))"
  by (simp add: useUndoPoint_def nth_append)

lemma useUndoPoint_single: "useUndoPoint [e] = Inr None"
  by (simp add: useUndoPoint_def)

lemma useUndoPoint_empty: "useUndoPoint [] = Inl NoEventsToUndo"
  by (simp add: useUndoPoint_def)

lemma buildMatchState_empty: "buildMatchState initial [] = initial"
  by (simp add: buildMatchState_def)

lemma buildMatchState_last: "buildMatchState initial (es @ [e]) = scoreSnapshot e"
  by (simp add: buildMatchState_def)

text \<open>
  C1. Scoring a point and then undoing it over the history of that single event should give
  back the state before the point. The engines' \<open>undoLastPoint\<close> returns the snapshot of
  the last event, which is the state after the point: from the initial state of a tennis
  match (and of a pickleball match) one point for team 1 followed by \<open>undoLastPoint\<close>
  leaves 15-0 (1-0), not the initial state.
\<close>

theorem undo_roundtrip_returns_scored_state:
  "tennis_scorePoint (tennis_createInitialState ''m'' TENNIS_STANDARD Team1) Team1
     = Inr ex_fifteen_love \<and>
   undoLastPoint ex_fifteen_love [pointScoredEvent ''e1'' 1 ''m'' Team1 ex_fifteen_love]
     = ex_fifteen_love \<and>
   ex_fifteen_love \<noteq> tennis_createInitialState ''m'' TENNIS_STANDARD Team1 \<and>
   pickleball_scorePoint (pickleball_createInitialState ''m'' PICKLEBALL_STANDARD Team1) Team1
     = Inr ex_one_nil \<and>
   undoLastPoint ex_one_nil [pointScoredEvent ''e1'' 1 ''m'' Team1 ex_one_nil] = ex_one_nil \<and>
   ex_one_nil \<noteq> pickleball_createInitialState ''m'' PICKLEBALL_STANDARD Team1"
proof -
  have "tennis_scorePoint (tennis_createInitialState ''m'' TENNIS_STANDARD Team1) Team1
          = Inr ex_fifteen_love"
    by code_simp
  moreover have "pickleball_scorePoint (pickleball_createInitialState ''m'' PICKLEBALL_STANDARD Team1) Team1
          = Inr ex_one_nil"
    by code_simp
  moreover have "undoLastPoint ex_fifteen_love [pointScoredEvent ''e1'' 1 ''m'' Team1 ex_fifteen_love]
          = ex_fifteen_love"
      "undoLastPoint ex_one_nil [pointScoredEvent ''e1'' 1 ''m'' Team1 ex_one_nil] = ex_one_nil"
    by (simp_all add: undoLastPoint_def pointScoredEvent_def)
  moreover have "ex_fifteen_love \<noteq> tennis_createInitialState ''m'' TENNIS_STANDARD Team1"
    by (simp add: ex_fifteen_love_def tennis_createInitialState_def tennis_createInitialGame_def)
  moreover have "ex_one_nil \<noteq> pickleball_createInitialState ''m'' PICKLEBALL_STANDARD Team1"
    by (simp add: ex_one_nil_def pickleball_createInitialState_def
          pickleball_createInitialGame_def)
  ultimately show ?thesis by blast
qed

text \<open>
  C2. Undo after N events should restore the snapshot of event N-1. With the two events of
  the points that lead to 15-0 and to 30-0, the engine's \<open>undoLastPoint\<close> returns 30-0, the
  snapshot of event 2, where the undo mutation of the scorer page reads 15-0 from the same
  list. On the empty history the engine returns the state it was given.
\<close>

theorem undo_returns_last_snapshot:
  "tennis_scorePoint (tennis_createInitialState ''m'' TENNIS_STANDARD Team1) Team1
     = Inr ex_fifteen_love \<and>
   tennis_scorePoint ex_fifteen_love Team1 = Inr ex_thirty_love \<and>
   undoLastPoint ex_thirty_love
     [pointScoredEvent ''e1'' 1 ''m'' Team1 ex_fifteen_love,
      pointScoredEvent ''e2'' 2 ''m'' Team1 ex_thirty_love] = ex_thirty_love \<and>
   ex_thirty_love \<noteq> ex_fifteen_love \<and>
   useUndoPoint
     [pointScoredEvent ''e1'' 1 ''m'' Team1 ex_fifteen_love,
      pointScoredEvent ''e2'' 2 ''m'' Team1 ex_thirty_love] = Inr (Some ex_fifteen_love) \<and>
   undoLastPoint ex_thirty_love [] = ex_thirty_love"
proof -
  have "tennis_scorePoint (tennis_createInitialState ''m'' TENNIS_STANDARD Team1) Team1
          = Inr ex_fifteen_love"
    by code_simp
  moreover have "tennis_scorePoint ex_fifteen_love Team1 = Inr ex_thirty_love"
    by code_simp
  moreover have "undoLastPoint ex_thirty_love
     [pointScoredEvent ''e1'' 1 ''m'' Team1 ex_fifteen_love,
      pointScoredEvent ''e2'' 2 ''m'' Team1 ex_thirty_love] = ex_thirty_love"
      "undoLastPoint ex_thirty_love [] = ex_thirty_love"
    by (simp_all add: undoLastPoint_def pointScoredEvent_def)
  moreover have "useUndoPoint
     [pointScoredEvent ''e1'' 1 ''m'' Team1 ex_fifteen_love,
      pointScoredEvent ''e2'' 2 ''m'' Team1 ex_thirty_love] = Inr (Some ex_fifteen_love)"
    by (simp add: useUndoPoint_def pointScoredEvent_def)
  moreover have "ex_thirty_love \<noteq> ex_fifteen_love"
    by (simp add: ex_fifteen_love_def ex_thirty_love_def)
  ultimately show ?thesis by blast
qed


end
